theory Spec2Isabelle
  imports Complex_Main "HOL-Library.Char_ord" "HOL-Library.List_Lexorder"
begin

section \<open>Data model\<close>

text \<open>
  The development embeds \<^verbatim>\<open>scripts/performance_metrics.py\<close> and
  \<^verbatim>\<open>scripts/regression_detector.py\<close>. Python integers are \<open>int\<close>. Python
  floats (binary64) are modelled by the rationals they approximate: every product, quotient
  and comparison is exact. Strings are byte strings; SQLite compares TEXT values bytewise,
  which is the lexicographic order on \<open>char list\<close>. Timestamps are assumed to be ISO-8601
  text, so SQLite stores them as TEXT.
\<close>

datatype error = IntegrityError | ZeroDivisionError

text \<open>The dataclass \<^verbatim>\<open>BenchmarkResult\<close>.\<close>

record BenchmarkResult =
  crate_name :: string
  benchmark_name :: string
  duration_ns :: int
  memory_usage_bytes :: int
  cpu_utilization_percent :: rat
  timestamp :: string
  git_commit :: "string option"
  metadata :: "(string \<times> string) list option"

text \<open>
  One row of each of the three tables created by \<^verbatim>\<open>init_database\<close>. The column
  \<^verbatim>\<open>metadata_json\<close> holds the JSON text of a dictionary and is represented by
  that dictionary.
\<close>

record result_row =
  br_id :: nat
  br_crate_name :: string
  br_benchmark_name :: string
  br_duration_ns :: int
  br_memory_usage_bytes :: int
  br_cpu_utilization_percent :: rat
  br_timestamp :: string
  br_git_commit :: "string option"
  br_metadata_json :: "(string \<times> string) list option"

record baseline_row =
  pb_id :: nat
  pb_crate_name :: string
  pb_benchmark_name :: string
  pb_baseline_duration_ns :: int
  pb_baseline_timestamp :: string
  pb_git_commit :: string
  pb_is_active :: bool

record alert_row =
  ra_id :: nat
  ra_crate_name :: string
  ra_benchmark_name :: string
  ra_current_duration_ns :: int
  ra_baseline_duration_ns :: int
  ra_regression_percent :: rat
  ra_severity :: string
  ra_timestamp :: string
  ra_git_commit :: "string option"
  ra_resolved :: bool

text \<open>
  The committed content of the database file: the rows of each table in rowid order, and
  for each table the largest rowid handed out so far (\<^verbatim>\<open>AUTOINCREMENT\<close>).
\<close>

record database =
  benchmark_results :: "result_row list"
  performance_baselines :: "baseline_row list"
  regression_alerts :: "alert_row list"
  seq_results :: nat
  seq_baselines :: nat
  seq_alerts :: nat

definition init_database :: database where
  "init_database =
     \<lparr>benchmark_results = [], performance_baselines = [], regression_alerts = [],
      seq_results = 0, seq_baselines = 0, seq_alerts = 0\<rparr>"

section \<open>PerformanceDatabase\<close>

subsection \<open>insert_results\<close>

text \<open>
  \<^verbatim>\<open>UNIQUE(crate_name, benchmark_name, timestamp)\<close>: the identity of a stored
  measurement.
\<close>

definition row_identity :: "result_row \<Rightarrow> string \<times> string \<times> string" where
  "row_identity q = (br_crate_name q, br_benchmark_name q, br_timestamp q)"

definition result_identity :: "BenchmarkResult \<Rightarrow> string \<times> string \<times> string" where
  "result_identity r = (crate_name r, benchmark_name r, timestamp r)"

text \<open>
  \<^verbatim>\<open>metadata_json = json.dumps(result.metadata) if result.metadata else None\<close>:
  an empty dictionary is falsy and is stored as NULL.
\<close>

definition metadata_json :: "BenchmarkResult \<Rightarrow> (string \<times> string) list option" where
  "metadata_json r = (case metadata r of None \<Rightarrow> None | Some [] \<Rightarrow> None | Some m \<Rightarrow> Some m)"

definition new_result_row :: "nat \<Rightarrow> BenchmarkResult \<Rightarrow> result_row" where
  "new_result_row i r =
     \<lparr>br_id = i, br_crate_name = crate_name r, br_benchmark_name = benchmark_name r,
      br_duration_ns = duration_ns r, br_memory_usage_bytes = memory_usage_bytes r,
      br_cpu_utilization_percent = cpu_utilization_percent r, br_timestamp = timestamp r,
      br_git_commit = git_commit r, br_metadata_json = metadata_json r\<rparr>"

text \<open>
  \<^verbatim>\<open>INSERT OR REPLACE INTO benchmark_results\<close>: the rows that conflict on the
  UNIQUE constraint are deleted and the new row is inserted with a fresh rowid.
\<close>

definition insert_or_replace :: "database \<Rightarrow> BenchmarkResult \<Rightarrow> database" where
  "insert_or_replace db r =
     db\<lparr>benchmark_results :=
          filter (\<lambda>q. row_identity q \<noteq> result_identity r) (benchmark_results db)
          @ [new_result_row (Suc (seq_results db)) r],
        seq_results := Suc (seq_results db)\<rparr>"

fun insert_results :: "database \<Rightarrow> BenchmarkResult list \<Rightarrow> database" where
  "insert_results db [] = db"
| "insert_results db (r # rs) = insert_results (insert_or_replace db r) rs"

subsection \<open>get_baseline and set_baseline\<close>

text \<open>
  \<^verbatim>\<open>SELECT baseline_duration_ns, git_commit ... WHERE crate_name = ? AND
  benchmark_name = ? AND is_active = 1\<close> followed by \<^verbatim>\<open>fetchone()\<close>:
  the first matching row, or \<^verbatim>\<open>None\<close>.
\<close>

definition get_baseline :: "database \<Rightarrow> string \<Rightarrow> string \<Rightarrow> (int \<times> string) option" where
  "get_baseline db c b =
     (case filter (\<lambda>q. pb_crate_name q = c \<and> pb_benchmark_name q = b \<and> pb_is_active q)
             (performance_baselines db) of
        [] \<Rightarrow> None
      | q # _ \<Rightarrow> Some (pb_baseline_duration_ns q, pb_git_commit q))"

text \<open>\<^verbatim>\<open>UNIQUE(crate_name, benchmark_name, is_active)\<close> of the baseline table.\<close>

definition baseline_key :: "baseline_row \<Rightarrow> string \<times> string \<times> bool" where
  "baseline_key q = (pb_crate_name q, pb_benchmark_name q, pb_is_active q)"

text \<open>
  \<^verbatim>\<open>UPDATE performance_baselines SET is_active = 0 WHERE crate_name = ? AND
  benchmark_name = ?\<close>. SQLite rewrites the matching rows one at a time and checks the
  UNIQUE constraint against the other rows of the table at each row; a conflict aborts the
  statement and the driver raises \<^verbatim>\<open>sqlite3.IntegrityError\<close>. The second
  argument holds the rows already visited, the third the rows still to visit.
\<close>

fun deactivate_rows ::
  "string \<Rightarrow> string \<Rightarrow> baseline_row list \<Rightarrow> baseline_row list \<Rightarrow> error + baseline_row list"
where
  "deactivate_rows c b visited [] = Inr visited"
| "deactivate_rows c b visited (q # rest) =
     (if pb_crate_name q = c \<and> pb_benchmark_name q = b then
        (let q' = q\<lparr>pb_is_active := False\<rparr> in
         if baseline_key q' \<in> set (map baseline_key (visited @ rest)) then Inl IntegrityError
         else deactivate_rows c b (visited @ [q']) rest)
      else deactivate_rows c b (visited @ [q]) rest)"

text \<open>
  \<^verbatim>\<open>set_baseline\<close>: the UPDATE, then the INSERT of the new row (whose
  \<^verbatim>\<open>is_active\<close> takes the column default 1), then \<^verbatim>\<open>commit\<close>. Both
  statements run in one transaction; when either raises, nothing is committed and the
  database keeps its content. The last argument is the value of
  \<^verbatim>\<open>datetime.now().isoformat()\<close>.
\<close>

definition set_baseline ::
  "database \<Rightarrow> string \<Rightarrow> string \<Rightarrow> int \<Rightarrow> string \<Rightarrow> string \<Rightarrow> error + database"
where
  "set_baseline db c b duration commit now =
     (case deactivate_rows c b [] (performance_baselines db) of
        Inl e \<Rightarrow> Inl e
      | Inr rows \<Rightarrow>
          (let q = \<lparr>pb_id = Suc (seq_baselines db), pb_crate_name = c, pb_benchmark_name = b,
                    pb_baseline_duration_ns = duration, pb_baseline_timestamp = now,
                    pb_git_commit = commit, pb_is_active = True\<rparr>
           in if baseline_key q \<in> set (map baseline_key rows) then Inl IntegrityError
              else Inr (db\<lparr>performance_baselines := rows @ [q],
                           seq_baselines := Suc (seq_baselines db)\<rparr>)))"

text \<open>The rows of one (crate, benchmark) pair that are marked active.\<close>

definition active_baselines :: "database \<Rightarrow> string \<Rightarrow> string \<Rightarrow> baseline_row list" where
  "active_baselines db c b =
     filter (\<lambda>q. pb_crate_name q = c \<and> pb_benchmark_name q = b \<and> pb_is_active q)
       (performance_baselines db)"

section \<open>RegressionDetector\<close>

text \<open>The alert dictionary built by \<^verbatim>\<open>RegressionDetector.detect_regressions\<close>.\<close>

record alert =
  a_crate_name :: string
  a_benchmark_name :: string
  a_current_duration_ns :: int
  a_baseline_duration_ns :: int
  a_regression_percent :: rat
  a_severity :: string
  a_timestamp :: string
  a_git_commit :: "string option"
  a_baseline_commit :: string

text \<open>
  \<^verbatim>\<open>((current_duration - baseline_duration) / baseline_duration) * 100\<close>. Python's
  true division raises \<^verbatim>\<open>ZeroDivisionError\<close> on a zero divisor.
\<close>

definition compute_change_percent :: "int \<Rightarrow> int \<Rightarrow> error + rat" where
  "compute_change_percent current_duration baseline_duration =
     (if baseline_duration = 0 then Inl ZeroDivisionError
      else Inr (of_int (current_duration - baseline_duration) / of_int baseline_duration * 100))"

definition get_severity :: "rat \<Rightarrow> string" where
  "get_severity change_percent =
     (if change_percent \<ge> 50 then ''CRITICAL''
      else if change_percent \<ge> 25 then ''HIGH''
      else if change_percent \<ge> 15 then ''MEDIUM''
      else ''LOW'')"

text \<open>\<^verbatim>\<open>_save_alert\<close>: one INSERT into \<^verbatim>\<open>regression_alerts\<close>, committed at once.\<close>

definition save_alert :: "database \<Rightarrow> alert \<Rightarrow> database" where
  "save_alert db a =
     db\<lparr>regression_alerts := regression_alerts db @
          [\<lparr>ra_id = Suc (seq_alerts db), ra_crate_name = a_crate_name a,
            ra_benchmark_name = a_benchmark_name a,
            ra_current_duration_ns = a_current_duration_ns a,
            ra_baseline_duration_ns = a_baseline_duration_ns a,
            ra_regression_percent = a_regression_percent a, ra_severity = a_severity a,
            ra_timestamp = a_timestamp a, ra_git_commit = a_git_commit a,
            ra_resolved = False\<rparr>],
        seq_alerts := Suc (seq_alerts db)\<rparr>"

text \<open>
  The loop of \<^verbatim>\<open>detect_regressions\<close>, with the database and the list
  \<^verbatim>\<open>alerts\<close> as loop state. The result pairs the database as the call leaves it
  with either the exception that ended the call or the returned list. A tuple returned by
  \<^verbatim>\<open>get_baseline\<close> is truthy whatever it holds.
\<close>

fun detect_loop ::
  "rat \<Rightarrow> BenchmarkResult list \<Rightarrow> database \<Rightarrow> alert list \<Rightarrow> database \<times> (error + alert list)"
where
  "detect_loop threshold_percent [] db alerts = (db, Inr alerts)"
| "detect_loop threshold_percent (r # rs) db alerts =
     (case get_baseline db (crate_name r) (benchmark_name r) of
        None \<Rightarrow> detect_loop threshold_percent rs db alerts
      | Some (baseline_duration, baseline_commit) \<Rightarrow>
          (case compute_change_percent (duration_ns r) baseline_duration of
             Inl e \<Rightarrow> (db, Inl e)
           | Inr change_percent \<Rightarrow>
               if change_percent > threshold_percent then
                 (let a = \<lparr>a_crate_name = crate_name r, a_benchmark_name = benchmark_name r,
                           a_current_duration_ns = duration_ns r,
                           a_baseline_duration_ns = baseline_duration,
                           a_regression_percent = change_percent,
                           a_severity = get_severity change_percent,
                           a_timestamp = timestamp r, a_git_commit = git_commit r,
                           a_baseline_commit = baseline_commit\<rparr>
                  in detect_loop threshold_percent rs (save_alert db a) (alerts @ [a]))
               else detect_loop threshold_percent rs db alerts))"

definition detect_regressions ::
  "database \<Rightarrow> rat \<Rightarrow> BenchmarkResult list \<Rightarrow> database \<times> (error + alert list)"
where
  "detect_regressions db threshold_percent results = detect_loop threshold_percent results db []"

section \<open>SimpleRegressionDetector\<close>

text \<open>
  The dictionaries read from the JSON files, with the three keys the detector reads, and
  the dataclass \<^verbatim>\<open>RegressionAlert\<close>.
\<close>

record result_dict =
  d_crate_name :: string
  d_benchmark_name :: string
  d_duration_ns :: int

record RegressionAlert =
  alert_crate_name :: string
  alert_benchmark_name :: string
  current_duration_ns :: int
  baseline_duration_ns :: int
  change_percent :: rat
  severity :: string

text \<open>\<^verbatim>\<open>f"{result['crate_name']}/{result['benchmark_name']}"\<close>\<close>

definition lookup_key :: "result_dict \<Rightarrow> string" where
  "lookup_key r = d_crate_name r @ ''/'' @ d_benchmark_name r"

fun build_lookup :: "(string \<rightharpoonup> int) \<Rightarrow> result_dict list \<Rightarrow> (string \<rightharpoonup> int)" where
  "build_lookup baseline_lookup [] = baseline_lookup"
| "build_lookup baseline_lookup (r # rs) =
     build_lookup (baseline_lookup(lookup_key r \<mapsto> d_duration_ns r)) rs"

definition simple_get_severity :: "rat \<Rightarrow> string" where
  "simple_get_severity cp =
     (if cp \<ge> 50 then ''CRITICAL''
      else if cp \<ge> 25 then ''HIGH''
      else if cp \<ge> 15 then ''MEDIUM''
      else ''LOW'')"

fun simple_loop ::
  "rat \<Rightarrow> (string \<rightharpoonup> int) \<Rightarrow> result_dict list \<Rightarrow> RegressionAlert list
   \<Rightarrow> error + RegressionAlert list"
where
  "simple_loop threshold_percent baseline_lookup [] alerts = Inr alerts"
| "simple_loop threshold_percent baseline_lookup (current # rest) alerts =
     (case baseline_lookup (lookup_key current) of
        None \<Rightarrow> simple_loop threshold_percent baseline_lookup rest alerts
      | Some baseline_duration \<Rightarrow>
          (case compute_change_percent (d_duration_ns current) baseline_duration of
             Inl e \<Rightarrow> Inl e
           | Inr cp \<Rightarrow>
               if cp > threshold_percent then
                 simple_loop threshold_percent baseline_lookup rest
                   (alerts @ [\<lparr>alert_crate_name = d_crate_name current,
                               alert_benchmark_name = d_benchmark_name current,
                               current_duration_ns = d_duration_ns current,
                               baseline_duration_ns = baseline_duration,
                               change_percent = cp,
                               severity = simple_get_severity cp\<rparr>])
               else simple_loop threshold_percent baseline_lookup rest alerts))"

text \<open>
  \<^verbatim>\<open>sorted(alerts, key=lambda x: x.change_percent, reverse=True)\<close>: a stable sort
  into descending order of the key.
\<close>

definition simple_detect_regressions ::
  "rat \<Rightarrow> result_dict list \<Rightarrow> result_dict list \<Rightarrow> error + RegressionAlert list"
where
  "simple_detect_regressions threshold_percent current_results baseline_results =
     (case simple_loop threshold_percent (build_lookup Map.empty baseline_results)
             current_results [] of
        Inl e \<Rightarrow> Inl e
      | Inr alerts \<Rightarrow> Inr (sort_key (\<lambda>x. - change_percent x) alerts))"

section \<open>PerformanceAnalyzer\<close>

subsection \<open>Library functions\<close>

text \<open>
  \<^verbatim>\<open>Series.unique()\<close>: the distinct values in order of first appearance.
\<close>

definition unique :: "'a list \<Rightarrow> 'a list" where
  "unique xs = rev (remdups (rev xs))"

text \<open>\<^verbatim>\<open>np.mean\<close> and \<^verbatim>\<open>np.median\<close> of a non-empty array of integers.\<close>

definition np_mean :: "int list \<Rightarrow> rat" where
  "np_mean ys = of_int (sum_list ys) / of_nat (length ys)"

definition np_median :: "int list \<Rightarrow> rat" where
  "np_median ys =
     (let s = sort ys; n = length ys
      in if odd n then of_int (s ! (n div 2))
         else (of_int (s ! (n div 2 - 1)) + of_int (s ! (n div 2))) / 2)"

text \<open>
  \<^verbatim>\<open>scipy.stats.linregress(x, durations)\<close> with \<^verbatim>\<open>x = np.arange(len(durations))\<close>.
  SciPy is not part of the repository; its slope and correlation are modelled by the
  least-squares formulas it documents, in exact arithmetic: \<open>ssxm\<close> is the mean of
  \<open>(x\<^sub>i - mean x)\<^sup>2\<close>, \<open>ssxym\<close> the mean of \<open>(x\<^sub>i - mean x) * (y\<^sub>i - mean y)\<close>, the slope
  is \<open>ssxym / ssxm\<close>, and \<open>r\<close> is 0 when \<open>ssxm\<close> or \<open>ssym\<close> is 0. The p-value (a
  quantile of Student's distribution) and \<^verbatim>\<open>np.std\<close> (a square root) are not
  rational functions of the data; they are parameters of the model.
\<close>

definition xmean :: "nat \<Rightarrow> rat" where
  "xmean n = (\<Sum>i\<leftarrow>[0..<n]. of_nat i) / of_nat n"

definition ssxm :: "nat \<Rightarrow> rat" where
  "ssxm n = (\<Sum>i\<leftarrow>[0..<n]. (of_nat i - xmean n)\<^sup>2) / of_nat n"

definition ssym :: "int list \<Rightarrow> rat" where
  "ssym ys = (\<Sum>i\<leftarrow>[0..<length ys]. (of_int (ys ! i) - np_mean ys)\<^sup>2) / of_nat (length ys)"

definition ssxym :: "int list \<Rightarrow> rat" where
  "ssxym ys =
     (\<Sum>i\<leftarrow>[0..<length ys]. (of_nat i - xmean (length ys)) * (of_int (ys ! i) - np_mean ys))
     / of_nat (length ys)"

definition linregress_slope :: "int list \<Rightarrow> rat" where
  "linregress_slope ys = ssxym ys / ssxm (length ys)"

definition linregress_r_squared :: "int list \<Rightarrow> rat" where
  "linregress_r_squared ys =
     (if ssxm (length ys) = 0 \<or> ssym ys = 0 then 0
      else (ssxym ys)\<^sup>2 / (ssxm (length ys) * ssym ys))"

subsection \<open>generate_trend_report\<close>

record trend_info =
  trend_slope :: rat
  trend_r_squared :: rat
  trend_p_value :: rat
  is_improving :: bool
  is_degrading :: bool

record stats_info =
  count :: nat
  mean_ns :: rat
  median_ns :: rat
  std_ns :: rat
  min_ns :: int
  max_ns :: int
  trend :: "trend_info option"

record trend_report =
  report_crate_name :: string
  period_days :: int
  total_benchmarks :: nat
  total_runs :: nat
  benchmarks :: "(string \<times> stats_info) list"

text \<open>
  The returned dictionary: either \<^verbatim>\<open>{'error': message}\<close> or the report.
\<close>

datatype trend_result = Error_payload string | Trend_report trend_report

text \<open>
  The message of the error payload, an f-string around the crate name, as UTF-8 bytes.
\<close>

definition no_data_message :: "string \<Rightarrow> string" where
  "no_data_message crate =
     [CHR 0xE6, CHR 0xB2, CHR 0xA1, CHR 0xE6, CHR 0x9C, CHR 0x89, CHR 0xE6, CHR 0x89, CHR 0xBE,
      CHR 0xE5, CHR 0x88, CHR 0xB0, CHR 0x20]
     @ crate
     @ [CHR 0x20, CHR 0xE7, CHR 0x9A, CHR 0x84, CHR 0xE6, CHR 0x95, CHR 0xB0, CHR 0xE6, CHR 0x8D,
        CHR 0xAE]"

text \<open>
  \<^verbatim>\<open>SELECT benchmark_name, duration_ns, timestamp FROM benchmark_results WHERE
  crate_name = ? AND timestamp BETWEEN ? AND ? ORDER BY timestamp\<close>. The bounds are the
  ISO texts of \<^verbatim>\<open>end_date - timedelta(days)\<close> and of
  \<^verbatim>\<open>end_date = datetime.now()\<close>, passed in as arguments. Rows with equal
  timestamps are kept in rowid order.
\<close>

definition trend_rows :: "database \<Rightarrow> string \<Rightarrow> string \<Rightarrow> string \<Rightarrow> result_row list" where
  "trend_rows db crate start_date end_date =
     sort_key br_timestamp
       (filter (\<lambda>q. br_crate_name q = crate \<and> start_date \<le> br_timestamp q
                    \<and> br_timestamp q \<le> end_date)
          (benchmark_results db))"

text \<open>\<^verbatim>\<open>df[df['benchmark_name'] == benchmark]['duration_ns'].values\<close>\<close>

definition group_durations :: "result_row list \<Rightarrow> string \<Rightarrow> int list" where
  "group_durations df benchmark =
     map br_duration_ns (filter (\<lambda>q. br_benchmark_name q = benchmark) df)"

text \<open>
  The body of the loop over the benchmarks: the statistics of one group, and the trend
  when the group has at least two samples.
\<close>

definition benchmark_stats :: "(int list \<Rightarrow> rat) \<Rightarrow> (int list \<Rightarrow> rat) \<Rightarrow> int list \<Rightarrow> stats_info"
where
  "benchmark_stats np_std p_value durations =
     \<lparr>count = length durations,
      mean_ns = np_mean durations,
      median_ns = np_median durations,
      std_ns = np_std durations,
      min_ns = Min (set durations),
      max_ns = Max (set durations),
      trend =
        (if length durations \<ge> 2 then
           (let slope = linregress_slope durations; p = p_value durations
            in Some \<lparr>trend_slope = slope,
                     trend_r_squared = linregress_r_squared durations,
                     trend_p_value = p,
                     is_improving = (slope < 0),
                     is_degrading = (slope > 0 \<and> p < 5 / 100)\<rparr>)
         else None)\<rparr>"

definition generate_trend_report ::
  "(int list \<Rightarrow> rat) \<Rightarrow> (int list \<Rightarrow> rat) \<Rightarrow> database \<Rightarrow> string \<Rightarrow> int \<Rightarrow> string \<Rightarrow> string
   \<Rightarrow> trend_result"
where
  "generate_trend_report np_std p_value db crate days start_date end_date =
     (let df = trend_rows db crate start_date end_date
      in if df = [] then Error_payload (no_data_message crate)
         else Trend_report
           \<lparr>report_crate_name = crate,
            period_days = days,
            total_benchmarks = length (unique (map br_benchmark_name df)),
            total_runs = length df,
            benchmarks =
              map (\<lambda>benchmark. (benchmark, benchmark_stats np_std p_value
                                               (group_durations df benchmark)))
                (unique (map br_benchmark_name df))\<rparr>)"

subsection \<open>generate_comparison_report\<close>












section \<open>Sample data\<close>

text \<open>A measurement with the default values of the optional fields.\<close>

definition measurement :: "string \<Rightarrow> string \<Rightarrow> int \<Rightarrow> string \<Rightarrow> BenchmarkResult" where
  "measurement c b d t =
     \<lparr>crate_name = c, benchmark_name = b, duration_ns = d, memory_usage_bytes = 0,
      cpu_utilization_percent = 0, timestamp = t, git_commit = None, metadata = None\<rparr>"


text \<open>
  The store after one \<^verbatim>\<open>set_baseline\<close> call for the pair \<open>x/y\<close> on a
  fresh database, and a dictionary of the JSON input of the simple detector.
\<close>

definition baseline_db :: "int \<Rightarrow> database" where
  "baseline_db d =
     (case set_baseline init_database ''x'' ''y'' d ''v1'' ''t0'' of
        Inr db \<Rightarrow> db
      | Inl e \<Rightarrow> init_database)"

definition entry :: "string \<Rightarrow> string \<Rightarrow> int \<Rightarrow> result_dict" where
  "entry c b d = \<lparr>d_crate_name = c, d_benchmark_name = b, d_duration_ns = d\<rparr>"

text \<open>The store after a second \<^verbatim>\<open>set_baseline\<close> call for the same pair.\<close>

definition two_baselines_db :: database where
  "two_baselines_db =
     (case set_baseline (baseline_db 100) ''x'' ''y'' 200 ''v2'' ''t1'' of
        Inr db \<Rightarrow> db
      | Inl e \<Rightarrow> init_database)"

text \<open>
  A baseline list in which two different (crate, benchmark) pairs produce the same key
  string \<open>a/b/c\<close>.
\<close>

definition colliding_baselines :: "result_dict list" where
  "colliding_baselines = [entry ''a'' ''b/c'' 100, entry ''a'' ''b/c'' 100, entry ''a/b'' ''c'' 400]"



text \<open>
  A history of crate \<open>m\<close>: benchmark \<open>A\<close> slows down over three days, benchmark \<open>B\<close>
  speeds up over two.
\<close>

definition trend_db :: database where
  "trend_db =
     insert_results init_database
       [measurement ''m'' ''A'' 100 ''2024-03-01'', measurement ''m'' ''A'' 110 ''2024-03-02'',
        measurement ''m'' ''A'' 130 ''2024-03-03'', measurement ''m'' ''B'' 70 ''2024-03-02'',
        measurement ''m'' ''B'' 90 ''2024-03-01'']"

text \<open>
  For each benchmark of a trend report: its sample count and, when a trend was fitted, the
  slope with the two classification flags.
\<close>

definition trend_summary ::
  "trend_result \<Rightarrow> (string \<times> nat \<times> (rat \<times> bool \<times> bool) option) list" where
  "trend_summary res =
     (case res of
        Error_payload msg \<Rightarrow> []
      | Trend_report rep \<Rightarrow>
          map (\<lambda>(b, s). (b, count s,
                 map_option (\<lambda>t. (trend_slope t, is_improving t, is_degrading t)) (trend s)))
            (benchmarks rep))"


text \<open>
  A sequence of \<^verbatim>\<open>set_baseline\<close> calls for one pair, each with its duration,
  commit and clock value. A call that raises leaves the database as it was.
\<close>

fun set_baseline_calls ::
  "database \<Rightarrow> string \<Rightarrow> string \<Rightarrow> (int \<times> string \<times> string) list \<Rightarrow> database"
where
  "set_baseline_calls db c b [] = db"
| "set_baseline_calls db c b ((d, v, t) # calls) =
     set_baseline_calls (case set_baseline db c b d v t of Inl e \<Rightarrow> db | Inr db' \<Rightarrow> db') c b calls"

text \<open>The baseline entries that carry the (crate, benchmark) pair of a current record.\<close>

definition pair_entries :: "result_dict \<Rightarrow> result_dict list \<Rightarrow> result_dict list" where
  "pair_entries cur bs =
     filter (\<lambda>e. d_crate_name e = d_crate_name cur \<and> d_benchmark_name e = d_benchmark_name cur) bs"

section \<open>Properties of insert_results\<close>











section \<open>Properties of RegressionDetector\<close>

lemma get_baseline_save_alert: "get_baseline (save_alert db a) c b = get_baseline db c b"
  by (simp add: get_baseline_def save_alert_def)




lemma detect_loop_zero_baseline:
  "r \<in> set rs \<Longrightarrow> get_baseline db (crate_name r) (benchmark_name r) = Some (0, c) \<Longrightarrow>
   snd (detect_loop thr rs db alerts) = Inl ZeroDivisionError"
proof (induction rs arbitrary: db alerts)
  case Nil
  then show ?case by simp
next
  case (Cons x rs)
  show ?case
  proof (cases "get_baseline db (crate_name x) (benchmark_name x)")
    case None
    with Cons.prems have "r \<in> set rs" by auto
    with None Cons.IH Cons.prems(2) show ?thesis by simp
  next
    case (Some bc)
    obtain bd bcm where bc: "bc = (bd, bcm)" by (cases bc)
    show ?thesis
    proof (cases "bd = 0")
      case True
      with Some bc show ?thesis by (simp add: compute_change_percent_def)
    next
      case False
      with Some bc Cons.prems have "r \<in> set rs" by auto
      with Some bc False Cons.IH Cons.prems(2) show ?thesis
        by (simp add: compute_change_percent_def get_baseline_save_alert Let_def)
    qed
  qed
qed

lemma get_baseline_baseline_db:
  "get_baseline (baseline_db d) ''x'' ''y'' = Some (d, ''v1'')"
  by (simp add: baseline_db_def set_baseline_def init_database_def get_baseline_def
      baseline_key_def)

text \<open>
  Claim C1, as amended. When a batch contains a record whose (crate, benchmark) pair has an
  active baseline with \<^verbatim>\<open>baseline_duration_ns = 0\<close>, detection returns no alert
  list: the call ends with the \<^verbatim>\<open>ZeroDivisionError\<close> that Python raises in the
  percent computation. The code defines no \<^verbatim>\<open>InvalidRecordError\<close> and has no
  guard on the baseline.
\<close>

theorem detect_zero_baseline_raises:
  assumes "r \<in> set results"
    and "get_baseline db (crate_name r) (benchmark_name r) = Some (0, c)"
  shows "snd (detect_regressions db thr results) = Inl ZeroDivisionError"
  using assms by (simp add: detect_regressions_def detect_loop_zero_baseline)

theorem detect_zero_baseline_raises_witness:
  "measurement ''x'' ''y'' 130 ''t2'' \<in> set [measurement ''x'' ''z'' 1 ''t1'', measurement ''x'' ''y'' 130 ''t2'']
   \<and> get_baseline (baseline_db 0) ''x'' ''y'' = Some (0, ''v1'')
   \<and> snd (detect_regressions (baseline_db 0) 10
        [measurement ''x'' ''z'' 1 ''t1'', measurement ''x'' ''y'' 130 ''t2'']) = Inl ZeroDivisionError"
proof -
  have m: "measurement ''x'' ''y'' 130 ''t2'' \<in> set [measurement ''x'' ''z'' 1 ''t1'', measurement ''x'' ''y'' 130 ''t2'']"
    by simp
  have b: "get_baseline (baseline_db 0) (crate_name (measurement ''x'' ''y'' 130 ''t2''))
      (benchmark_name (measurement ''x'' ''y'' 130 ''t2'')) = Some (0, ''v1'')"
    by (simp add: measurement_def get_baseline_baseline_db)
  show ?thesis
    using detect_zero_baseline_raises [OF m b, of 10] m get_baseline_baseline_db [of 0] by simp
qed

text \<open>
  The claim as stated fails: with a zero baseline for \<open>x/y\<close> the call ends with the
  arithmetic fault itself.
\<close>

theorem detect_zero_baseline_counterexample:
  "detect_regressions (baseline_db 0) 10 [measurement ''x'' ''y'' 130 ''t2'']
     = (baseline_db 0, Inl ZeroDivisionError)"
  by (simp add: detect_regressions_def measurement_def get_baseline_baseline_db
      compute_change_percent_def)







text \<open>
  The simple detector returns its alerts in descending order of \<^verbatim>\<open>change_percent\<close>.
\<close>

lemma simple_detect_sorted_descending:
  assumes "simple_detect_regressions thr cur bs = Inr alerts"
  shows "sorted_wrt (\<lambda>a a'. change_percent a \<ge> change_percent a') alerts"
proof -
  obtain al where "alerts = sort_key (\<lambda>x. - change_percent x) al"
    using assms by (auto simp: simple_detect_regressions_def split: sum.splits)
  moreover have "sorted (map (\<lambda>x. - change_percent x) (sort_key (\<lambda>x. - change_percent x) al))"
    by (rule sorted_sort_key)
  ultimately show ?thesis by (simp add: sorted_wrt_map)
qed

text \<open>
  Claim C4. The alerts returned by detection are sorted by percent change, worst first.
  \<^verbatim>\<open>RegressionDetector.detect_regressions\<close> returns them in input order
  instead: for the durations 116 and 160 against the baseline 100 it returns the changes
  16, 60, where the simple detector returns 60, 16.
\<close>

theorem detect_regressions_input_order:
  "map_sum id (map a_regression_percent)
     (snd (detect_regressions (baseline_db 100) 10
        [measurement ''x'' ''y'' 116 ''t1'', measurement ''x'' ''y'' 160 ''t2''])) = Inr [16, 60]
   \<and> map_sum id (map change_percent)
     (simple_detect_regressions 10 [entry ''x'' ''y'' 116, entry ''x'' ''y'' 160]
        [entry ''x'' ''y'' 100]) = Inr [60, 16]"
  by (simp add: detect_regressions_def simple_detect_regressions_def measurement_def entry_def
      get_baseline_baseline_db get_baseline_save_alert compute_change_percent_def Let_def
      lookup_key_def)

section \<open>Properties of set_baseline\<close>

lemma deactivate_rows_conflict:
  assumes "\<exists>q \<in> set rest. pb_crate_name q = c \<and> pb_benchmark_name q = b"
    and "(c, b, False) \<in> set (map baseline_key visited)
         \<or> 2 \<le> length (filter (\<lambda>q. pb_crate_name q = c \<and> pb_benchmark_name q = b) rest)"
  shows "deactivate_rows c b visited rest = Inl IntegrityError"
  using assms
proof (induction rest arbitrary: visited)
  case Nil
  then show ?case by simp
next
  case (Cons q rest)
  show ?case
  proof (cases "pb_crate_name q = c \<and> pb_benchmark_name q = b")
    case True
    let ?q' = "q\<lparr>pb_is_active := False\<rparr>"
    have key: "baseline_key ?q' = (c, b, False)"
      using True by (simp add: baseline_key_def)
    show ?thesis
    proof (cases "(c, b, False) \<in> set (map baseline_key (visited @ rest))")
      case True
      with \<open>pb_crate_name q = c \<and> pb_benchmark_name q = b\<close> key show ?thesis
        by (simp add: Let_def)
    next
      case False
      then have nv: "(c, b, False) \<notin> set (map baseline_key visited)" by simp
      with Cons.prems(2) True
      have "1 \<le> length (filter (\<lambda>q. pb_crate_name q = c \<and> pb_benchmark_name q = b) rest)"
        by simp
      then have ex: "\<exists>q \<in> set rest. pb_crate_name q = c \<and> pb_benchmark_name q = b"
        by (metis (mono_tags, lifting) filter_False length_0_conv not_one_le_zero)
      have "deactivate_rows c b (visited @ [?q']) rest = Inl IntegrityError"
        using ex key by (intro Cons.IH) simp_all
      with True False key show ?thesis by (simp add: Let_def)
    qed
  next
    case False
    with Cons.prems have ex: "\<exists>q \<in> set rest. pb_crate_name q = c \<and> pb_benchmark_name q = b"
      by auto
    have "deactivate_rows c b (visited @ [q]) rest = Inl IntegrityError"
      using ex Cons.prems(2) False by (intro Cons.IH) auto
    with False show ?thesis by auto
  qed
qed

lemma set_baseline_two_rows_fails:
  assumes "2 \<le> length (filter (\<lambda>q. pb_crate_name q = c \<and> pb_benchmark_name q = b)
                        (performance_baselines db))"
  shows "set_baseline db c b d v t = Inl IntegrityError"
proof -
  from assms have "filter (\<lambda>q. pb_crate_name q = c \<and> pb_benchmark_name q = b)
                        (performance_baselines db) \<noteq> []" by auto
  then have "\<exists>q \<in> set (performance_baselines db). pb_crate_name q = c \<and> pb_benchmark_name q = b"
    by (auto simp: filter_empty_conv)
  then have "deactivate_rows c b [] (performance_baselines db) = Inl IntegrityError"
    using assms by (intro deactivate_rows_conflict) simp_all
  then show ?thesis by (simp add: set_baseline_def)
qed

lemma deactivate_rows_pairs:
  "deactivate_rows c b visited rest = Inr rows \<Longrightarrow>
   map (\<lambda>q. (pb_crate_name q, pb_benchmark_name q)) rows
     = map (\<lambda>q. (pb_crate_name q, pb_benchmark_name q)) (visited @ rest)"
  by (induction c b visited rest rule: deactivate_rows.induct)
     (auto simp: Let_def split: if_splits)

lemma filter_pairs_conv:
  "length (filter (\<lambda>q. pb_crate_name q = c \<and> pb_benchmark_name q = b) rows)
     = length (filter (\<lambda>p. p = (c, b)) (map (\<lambda>q. (pb_crate_name q, pb_benchmark_name q)) rows))"
  by (induction rows) auto

lemma set_baseline_adds_row:
  assumes "set_baseline db c b d v t = Inr db'"
  shows "length (filter (\<lambda>q. pb_crate_name q = c \<and> pb_benchmark_name q = b)
           (performance_baselines db'))
       = Suc (length (filter (\<lambda>q. pb_crate_name q = c \<and> pb_benchmark_name q = b)
           (performance_baselines db)))"
proof -
  from assms obtain rows where
    r: "deactivate_rows c b [] (performance_baselines db) = Inr rows"
    by (auto simp: set_baseline_def split: sum.splits)
  with assms obtain q where q: "performance_baselines db' = rows @ [q]"
      "pb_crate_name q = c" "pb_benchmark_name q = b"
    by (auto simp: set_baseline_def Let_def split: if_splits)
  from deactivate_rows_pairs [OF r] q show ?thesis
    by (simp add: filter_pairs_conv)
qed

lemma set_baseline_third_call_fails:
  assumes "set_baseline db c b d1 v1 t1 = Inr db1"
    and "set_baseline db1 c b d2 v2 t2 = Inr db2"
  shows "set_baseline db2 c b d3 v3 t3 = Inl IntegrityError"
  using set_baseline_adds_row [OF assms(1)] set_baseline_adds_row [OF assms(2)]
  by (intro set_baseline_two_rows_fails) simp

text \<open>
  Claim C2. Every \<^verbatim>\<open>set_baseline\<close> call for a pair deactivates the prior
  baselines of the pair and activates the new one. The first two calls do; the third call
  for the pair raises \<^verbatim>\<open>IntegrityError\<close>, because the deactivation would store
  a second inactive row under \<^verbatim>\<open>UNIQUE(crate_name, benchmark_name, is_active)\<close>,
  and the second baseline stays the active one.
\<close>

theorem set_baseline_three_calls:
  "set_baseline init_database ''x'' ''y'' 100 ''v1'' ''t0'' = Inr (baseline_db 100)
   \<and> set_baseline (baseline_db 100) ''x'' ''y'' 200 ''v2'' ''t1'' = Inr two_baselines_db
   \<and> map pb_baseline_duration_ns (active_baselines two_baselines_db ''x'' ''y'') = [200]
   \<and> set_baseline two_baselines_db ''x'' ''y'' 300 ''v3'' ''t2'' = Inl IntegrityError"
  by (simp add: two_baselines_db_def baseline_db_def set_baseline_def init_database_def
      baseline_key_def active_baselines_def)

lemma deactivate_rows_inactive:
  "deactivate_rows c b visited rest = Inr rows \<Longrightarrow>
   \<forall>q \<in> set visited. pb_crate_name q = c \<and> pb_benchmark_name q = b \<longrightarrow> \<not> pb_is_active q \<Longrightarrow>
   \<forall>q \<in> set rows. pb_crate_name q = c \<and> pb_benchmark_name q = b \<longrightarrow> \<not> pb_is_active q"
proof (induction c b visited rest rule: deactivate_rows.induct)
  case (1 c b visited)
  then show ?case by simp
next
  case (2 c b visited q rest)
  show ?case
  proof (cases "pb_crate_name q = c \<and> pb_benchmark_name q = b")
    case True
    let ?q' = "q\<lparr>pb_is_active := False\<rparr>"
    from "2.prems"(1) True
    have nc: "baseline_key ?q' \<notin> set (map baseline_key (visited @ rest))"
      and rec: "deactivate_rows c b (visited @ [?q']) rest = Inr rows"
      by (simp_all add: Let_def split: if_splits)
    have "\<forall>x \<in> set (visited @ [?q']). pb_crate_name x = c \<and> pb_benchmark_name x = b \<longrightarrow> \<not> pb_is_active x"
      using "2.prems"(2) by simp
    with "2.IH"(1) [OF True refl nc rec] show ?thesis .
  next
    case False
    from "2.prems"(1) False have rec: "deactivate_rows c b (visited @ [q]) rest = Inr rows"
      by (simp split: if_splits)
    have "\<forall>x \<in> set (visited @ [q]). pb_crate_name x = c \<and> pb_benchmark_name x = b \<longrightarrow> \<not> pb_is_active x"
      using "2.prems"(2) False by auto
    with "2.IH"(2) [OF False rec] show ?thesis .
  qed
qed

lemma set_baseline_success_exclusive:
  assumes "set_baseline db c b d v t = Inr db'"
  shows "map pb_baseline_duration_ns (active_baselines db' c b) = [d]"
proof -
  from assms obtain rows where
    r: "deactivate_rows c b [] (performance_baselines db) = Inr rows"
    by (cases "deactivate_rows c b [] (performance_baselines db)")
       (simp_all add: set_baseline_def)
  have "\<forall>q \<in> set rows. pb_crate_name q = c \<and> pb_benchmark_name q = b \<longrightarrow> \<not> pb_is_active q"
    using r by (rule deactivate_rows_inactive) simp
  then have e: "filter (\<lambda>q. pb_crate_name q = c \<and> pb_benchmark_name q = b \<and> pb_is_active q) rows = []"
    by (simp add: filter_empty_conv)
  let ?q = "\<lparr>pb_id = Suc (seq_baselines db), pb_crate_name = c, pb_benchmark_name = b,
       pb_baseline_duration_ns = d, pb_baseline_timestamp = t,
       pb_git_commit = v, pb_is_active = True\<rparr>"
  from assms r have "db' = db\<lparr>performance_baselines := rows @ [?q],
      seq_baselines := Suc (seq_baselines db)\<rparr>"
    by (simp add: set_baseline_def Let_def split: if_splits)
  then have "performance_baselines db' = rows @ [?q]" by simp
  with e show ?thesis
    by (simp add: active_baselines_def)
qed

text \<open>
  Exclusivity itself holds: after any non-empty sequence of calls for a pair that had no
  baseline, exactly one row of the pair is active.
\<close>

lemma deactivate_rows_fresh:
  "\<forall>q \<in> set rest. \<not> (pb_crate_name q = c \<and> pb_benchmark_name q = b) \<Longrightarrow>
   deactivate_rows c b visited rest = Inr (visited @ rest)"
  by (induction rest arbitrary: visited) auto

lemma set_baseline_fresh:
  assumes "\<forall>q \<in> set (performance_baselines db). \<not> (pb_crate_name q = c \<and> pb_benchmark_name q = b)"
  shows "\<exists>db'. set_baseline db c b d v t = Inr db'"
proof -
  have "deactivate_rows c b [] (performance_baselines db) = Inr (performance_baselines db)"
    using deactivate_rows_fresh [OF assms, of "[]"] by simp
  moreover have "(c, b, True) \<notin> set (map baseline_key (performance_baselines db))"
    using assms by (auto simp: baseline_key_def)
  ultimately show ?thesis
    by (simp add: set_baseline_def baseline_key_def)
qed

lemma one_active_preserved:
  assumes "length (active_baselines db c b) = 1"
  shows "length (active_baselines
           (case set_baseline db c b d v t of Inl e \<Rightarrow> db | Inr db' \<Rightarrow> db') c b) = 1"
proof (cases "set_baseline db c b d v t")
  case (Inl e)
  with assms show ?thesis by simp
next
  case (Inr db')
  have "length (map pb_baseline_duration_ns (active_baselines db' c b)) = 1"
    by (simp only: set_baseline_success_exclusive [OF Inr]) simp
  with Inr show ?thesis by simp
qed

lemma set_baseline_calls_preserve:
  "length (active_baselines db c b) = 1 \<Longrightarrow>
   length (active_baselines (set_baseline_calls db c b calls) c b) = 1"
proof (induction calls arbitrary: db)
  case Nil
  then show ?case by simp
next
  case (Cons call calls)
  obtain d v t where call: "call = (d, v, t)" by (cases call)
  show ?case
    unfolding call set_baseline_calls.simps
    by (rule Cons.IH) (rule one_active_preserved [OF Cons.prems])
qed

lemma set_baseline_calls_one_active:
  assumes "\<forall>q \<in> set (performance_baselines db). \<not> (pb_crate_name q = c \<and> pb_benchmark_name q = b)"
    and "calls \<noteq> []"
  shows "length (active_baselines (set_baseline_calls db c b calls) c b) = 1"
proof -
  from assms(2) obtain d v t rest where calls: "calls = (d, v, t) # rest"
    by (cases calls) auto
  from set_baseline_fresh [OF assms(1)] obtain db' where ok: "set_baseline db c b d v t = Inr db'"
    by blast
  have "length (map pb_baseline_duration_ns (active_baselines db' c b)) = 1"
    by (simp only: set_baseline_success_exclusive [OF ok]) simp
  then have "length (active_baselines db' c b) = 1" by simp
  then show ?thesis
    unfolding calls using ok by (simp add: set_baseline_calls_preserve)
qed

section \<open>Properties of SimpleRegressionDetector\<close>

lemma build_lookup_last:
  "build_lookup m bs k =
     (case filter (\<lambda>e. lookup_key e = k) bs of
        [] \<Rightarrow> m k
      | e # es \<Rightarrow> Some (d_duration_ns (last (e # es))))"
proof (induction bs arbitrary: m)
  case Nil
  then show ?case by simp
next
  case (Cons x bs)
  show ?case
    by (cases "filter (\<lambda>e. lookup_key e = k) bs") (auto simp: Cons.IH)
qed

lemma lookup_key_eq_iff:
  assumes "CHR ''/'' \<notin> set (d_crate_name e)" and "CHR ''/'' \<notin> set (d_crate_name e')"
  shows "lookup_key e = lookup_key e' \<longleftrightarrow>
         d_crate_name e = d_crate_name e' \<and> d_benchmark_name e = d_benchmark_name e'"
proof
  assume eq: "lookup_key e = lookup_key e'"
  have tw: "takeWhile (\<lambda>x. x \<noteq> CHR ''/'') (c @ CHR ''/'' # b) = c"
    if "CHR ''/'' \<notin> set c" for c b :: string
    using that by (induction c) auto
  from eq have "takeWhile (\<lambda>x. x \<noteq> CHR ''/'') (d_crate_name e @ CHR ''/'' # d_benchmark_name e)
      = takeWhile (\<lambda>x. x \<noteq> CHR ''/'') (d_crate_name e' @ CHR ''/'' # d_benchmark_name e')"
    by (simp add: lookup_key_def)
  with assms have c: "d_crate_name e = d_crate_name e'" by (simp add: tw)
  with eq show "d_crate_name e = d_crate_name e' \<and> d_benchmark_name e = d_benchmark_name e'"
    by (simp add: lookup_key_def)
next
  assume "d_crate_name e = d_crate_name e' \<and> d_benchmark_name e = d_benchmark_name e'"
  then show "lookup_key e = lookup_key e'" by (simp add: lookup_key_def)
qed

text \<open>
  Claim C10, as amended. The lookup table maps a key string
  \<^verbatim>\<open>crate_name/benchmark_name\<close> to the duration of the last baseline entry in
  list order that produces this key string, and every current record is compared against
  the value stored under its own key string; earlier entries with that key are ignored.
  When no crate name contains a slash, the entries with the record's key string are the
  entries with the record's (crate, benchmark) pair.
\<close>

theorem baseline_lookup_last_key_wins:
  "build_lookup Map.empty bs (lookup_key cur) =
     (case filter (\<lambda>e. lookup_key e = lookup_key cur) bs of
        [] \<Rightarrow> None
      | e # es \<Rightarrow> Some (d_duration_ns (last (e # es))))
   \<and> ((\<forall>e \<in> set (cur # bs). CHR ''/'' \<notin> set (d_crate_name e)) \<longrightarrow>
        filter (\<lambda>e. lookup_key e = lookup_key cur) bs = pair_entries cur bs)
   \<and> simple_detect_regressions thr [cur] bs =
       (case build_lookup Map.empty bs (lookup_key cur) of
          None \<Rightarrow> Inr []
        | Some b \<Rightarrow>
            if b = 0 then Inl ZeroDivisionError
            else if of_int (d_duration_ns cur - b) / of_int b * 100 > thr then
              Inr [\<lparr>alert_crate_name = d_crate_name cur,
                    alert_benchmark_name = d_benchmark_name cur,
                    current_duration_ns = d_duration_ns cur, baseline_duration_ns = b,
                    change_percent = of_int (d_duration_ns cur - b) / of_int b * 100,
                    severity = simple_get_severity (of_int (d_duration_ns cur - b) / of_int b * 100)\<rparr>]
            else Inr [])"
proof (intro conjI impI)
  show "build_lookup Map.empty bs (lookup_key cur) =
     (case filter (\<lambda>e. lookup_key e = lookup_key cur) bs of
        [] \<Rightarrow> None
      | e # es \<Rightarrow> Some (d_duration_ns (last (e # es))))"
    by (simp only: build_lookup_last [of Map.empty bs "lookup_key cur"])
next
  assume "\<forall>e \<in> set (cur # bs). CHR ''/'' \<notin> set (d_crate_name e)"
  then show "filter (\<lambda>e. lookup_key e = lookup_key cur) bs = pair_entries cur bs"
    unfolding pair_entries_def by (intro filter_cong refl lookup_key_eq_iff) simp_all
next
  show "simple_detect_regressions thr [cur] bs =
       (case build_lookup Map.empty bs (lookup_key cur) of
          None \<Rightarrow> Inr []
        | Some b \<Rightarrow>
            if b = 0 then Inl ZeroDivisionError
            else if of_int (d_duration_ns cur - b) / of_int b * 100 > thr then
              Inr [\<lparr>alert_crate_name = d_crate_name cur,
                    alert_benchmark_name = d_benchmark_name cur,
                    current_duration_ns = d_duration_ns cur, baseline_duration_ns = b,
                    change_percent = of_int (d_duration_ns cur - b) / of_int b * 100,
                    severity = simple_get_severity (of_int (d_duration_ns cur - b) / of_int b * 100)\<rparr>]
            else Inr [])"
    by (simp add: simple_detect_regressions_def compute_change_percent_def split: option.splits)
qed

theorem baseline_lookup_last_key_wins_witness:
  "filter (\<lambda>e. CHR ''/'' \<in> set (d_crate_name e))
     [entry ''x'' ''y'' 130, entry ''x'' ''y'' 100, entry ''x'' ''z'' 5, entry ''x'' ''y'' 120] = []
   \<and> pair_entries (entry ''x'' ''y'' 130)
       [entry ''x'' ''y'' 100, entry ''x'' ''z'' 5, entry ''x'' ''y'' 120]
       = [entry ''x'' ''y'' 100, entry ''x'' ''y'' 120]
   \<and> build_lookup Map.empty [entry ''x'' ''y'' 100, entry ''x'' ''z'' 5, entry ''x'' ''y'' 120]
        (lookup_key (entry ''x'' ''y'' 130)) = Some 120
   \<and> simple_detect_regressions 10 [entry ''x'' ''y'' 130]
        [entry ''x'' ''y'' 100, entry ''x'' ''z'' 5, entry ''x'' ''y'' 120] = Inr []"
proof -
  have s: "\<forall>e \<in> set (entry ''x'' ''y'' 130 # [entry ''x'' ''y'' 100, entry ''x'' ''z'' 5, entry ''x'' ''y'' 120]).
      CHR ''/'' \<notin> set (d_crate_name e)"
    by (simp add: entry_def)
  show ?thesis
    using s baseline_lookup_last_key_wins [of "[entry ''x'' ''y'' 100, entry ''x'' ''z'' 5, entry ''x'' ''y'' 120]"
        "entry ''x'' ''y'' 130" 10]
    by (simp add: entry_def lookup_key_def pair_entries_def)
qed

text \<open>
  The claim as stated, in terms of pairs, fails: the record \<open>a\<close>, \<open>b/c\<close> is compared
  against the entry of the pair \<open>a/b\<close>, \<open>c\<close> (400 ns, no alert), not against the last
  entry of its own pair (100 ns, which would give an alert of 20 percent).
\<close>

theorem baseline_lookup_pair_counterexample:
  "build_lookup Map.empty colliding_baselines (lookup_key (entry ''a'' ''b/c'' 120)) = Some 400
   \<and> pair_entries (entry ''a'' ''b/c'' 120) colliding_baselines
       = [entry ''a'' ''b/c'' 100, entry ''a'' ''b/c'' 100]
   \<and> simple_detect_regressions 10 [entry ''a'' ''b/c'' 120] colliding_baselines = Inr []
   \<and> map_sum id (map change_percent)
        (simple_detect_regressions 10 [entry ''a'' ''b/c'' 120]
           [entry ''a'' ''b/c'' 100, entry ''a'' ''b/c'' 100])
       = Inr [20]"
  by (simp add: colliding_baselines_def entry_def lookup_key_def simple_detect_regressions_def
      compute_change_percent_def pair_entries_def)

section \<open>Properties of the least-squares slope\<close>

text \<open>
  The sign of the slope is the sign of the covariance sum, which equals, up to the factor
  \<open>2n\<close>, the sum of \<open>(i - j) * (y\<^sub>i - y\<^sub>j)\<close> over all pairs of sample indices.
\<close>

lemma sum_list_upt_conv: "(\<Sum>i\<leftarrow>[0..<n]. f i) = (\<Sum>i<n. f i)"
  by (simp add: interv_sum_list_conv_sum_set_nat atLeast0LessThan)

lemma xmean_times:
  assumes "0 < n"
  shows "of_nat n * xmean n = (\<Sum>j<n. of_nat j)"
  using assms by (simp add: xmean_def sum_list_upt_conv)

lemma deviation_sum_zero:
  assumes "0 < n"
  shows "(\<Sum>i<n. (of_nat i - xmean n)) = 0"
proof -
  have "(\<Sum>i<n. (of_nat i - xmean n)) = (\<Sum>i<n. of_nat i) - of_nat n * xmean n"
    by (simp add: sum_subtractf)
  also have "\<dots> = 0" using xmean_times [OF assms] by simp
  finally show ?thesis .
qed

lemma centred_sum:
  fixes y :: "nat \<Rightarrow> rat"
  assumes "0 < n"
  shows "(\<Sum>i<n. (of_nat i - xmean n) * (y i - m)) = (\<Sum>i<n. (of_nat i - xmean n) * y i)"
proof -
  have a: "(\<Sum>i<n. (of_nat i - xmean n) * (y i - m))
      = (\<Sum>i<n. (of_nat i - xmean n) * y i - m * (of_nat i - xmean n))"
    by (rule sum.cong) (simp_all add: algebra_simps)
  have b: "(\<Sum>i<n. (of_nat i - xmean n) * y i - m * (of_nat i - xmean n))
      = (\<Sum>i<n. (of_nat i - xmean n) * y i) - (\<Sum>i<n. m * (of_nat i - xmean n))"
    by (rule sum_subtractf)
  have c: "(\<Sum>i<n. m * (of_nat i - xmean n)) = m * (\<Sum>i<n. (of_nat i - xmean n))"
    by (rule sum_distrib_left [symmetric])
  show ?thesis
    unfolding a b c deviation_sum_zero [OF assms] by simp
qed

lemma row_sum:
  fixes y :: "nat \<Rightarrow> rat"
  assumes "0 < n"
  shows "(\<Sum>j<n. (of_nat i - of_nat j) * y i) = of_nat n * ((of_nat i - xmean n) * y i)"
proof -
  have "(\<Sum>j<n. (of_nat i - of_nat j) * y i) = (\<Sum>j<n. (of_nat i - of_nat j)) * y i"
    by (simp add: sum_distrib_right)
  also have "(\<Sum>j<n. (of_nat i - of_nat j :: rat)) = of_nat n * of_nat i - (\<Sum>j<n. of_nat j)"
    by (simp add: sum_subtractf)
  also have "\<dots> = of_nat n * (of_nat i - xmean n)"
    using xmean_times [OF assms] by (simp add: algebra_simps)
  finally show ?thesis by (simp add: algebra_simps)
qed

lemma double_sum:
  fixes y :: "nat \<Rightarrow> rat"
  assumes "0 < n"
  shows "(\<Sum>i<n. \<Sum>j<n. (of_nat i - of_nat j) * (y i - y j))
       = 2 * of_nat n * (\<Sum>i<n. (of_nat i - xmean n) * y i)"
proof -
  have rows: "(\<Sum>i<n. \<Sum>j<n. (of_nat i - of_nat j) * y i)
           = of_nat n * (\<Sum>i<n. (of_nat i - xmean n) * y i)"
    by (simp only: row_sum [OF assms] sum_distrib_left)
  have cols: "(\<Sum>i<n. \<Sum>j<n. (of_nat j - of_nat i) * y j)
           = of_nat n * (\<Sum>i<n. (of_nat i - xmean n) * y i)"
  proof -
    have "(\<Sum>i<n. \<Sum>j<n. (of_nat j - of_nat i) * y j)
        = (\<Sum>j<n. \<Sum>i<n. (of_nat j - of_nat i) * y j)"
      by (rule sum.swap)
    then show ?thesis by (simp only: rows)
  qed
  have "(\<Sum>i<n. \<Sum>j<n. (of_nat i - of_nat j) * (y i - y j))
      = (\<Sum>i<n. \<Sum>j<n. ((of_nat i - of_nat j) * y i + (of_nat j - of_nat i) * y j))"
    by (intro sum.cong refl) (simp add: algebra_simps)
  also have "\<dots> = (\<Sum>i<n. \<Sum>j<n. (of_nat i - of_nat j) * y i)
                 + (\<Sum>i<n. \<Sum>j<n. (of_nat j - of_nat i) * y j)"
    by (simp only: sum.distrib)
  also have "\<dots> = 2 * of_nat n * (\<Sum>i<n. (of_nat i - xmean n) * y i)"
    using rows cols by simp
  finally show ?thesis .
qed

lemma double_sum_pos:
  fixes y :: "nat \<Rightarrow> rat"
  assumes "2 \<le> n" and mono: "\<And>i j. i < j \<Longrightarrow> j < n \<Longrightarrow> y i < y j"
  shows "0 < (\<Sum>i<n. \<Sum>j<n. (of_nat i - of_nat j) * (y i - y j))"
proof -
  have nonneg: "0 \<le> (of_nat i - of_nat j) * (y i - y j)" if "i < n" "j < n" for i j
  proof -
    consider "i < j" | "i = j" | "j < i" by linarith
    then show ?thesis
    proof cases
      case 1
      then have "y i < y j" using that mono by simp
      moreover have "(of_nat i :: rat) < of_nat j" using 1 by simp
      ultimately show ?thesis by (simp add: mult_nonpos_nonpos)
    next
      case 2
      then show ?thesis by simp
    next
      case 3
      then have "y j < y i" using that mono by simp
      moreover have "(of_nat j :: rat) < of_nat i" using 3 by simp
      ultimately show ?thesis by simp
    qed
  qed
  have inner0: "0 < (\<Sum>j<n. (of_nat 0 - of_nat j) * (y 0 - y j))"
  proof (rule sum_pos2 [where i = 1])
    show "finite {..<n}" by simp
    show "1 \<in> {..<n}" using assms(1) by simp
    have "y 0 < y 1" using mono [of 0 1] assms(1) by simp
    then show "0 < (of_nat 0 - of_nat 1) * (y 0 - y 1)"
      by (simp add: mult_neg_neg)
    show "0 \<le> (of_nat 0 - of_nat j) * (y 0 - y j)" if "j \<in> {..<n}" for j
      using nonneg [of 0 j] that assms(1) by simp
  qed
  show ?thesis
  proof (rule sum_pos2 [where i = 0])
    show "finite {..<n}" by simp
    show "0 \<in> {..<n}" using assms(1) by simp
    show "0 < (\<Sum>j<n. (of_nat 0 - of_nat j) * (y 0 - y j))" by (rule inner0)
    show "0 \<le> (\<Sum>j<n. (of_nat i - of_nat j) * (y i - y j))" if "i \<in> {..<n}" for i
      using that by (intro sum_nonneg nonneg) simp_all
  qed
qed

lemma ssxm_pos:
  assumes "2 \<le> n"
  shows "0 < ssxm n"
proof -
  define k :: nat where "k = (if xmean n = 0 then 1 else 0)"
  have k: "k < n" "of_nat k \<noteq> xmean n"
    using assms by (auto simp: k_def)
  have "0 < (\<Sum>i<n. (of_nat i - xmean n)\<^sup>2)"
  proof (rule sum_pos2 [where i = k])
    show "finite {..<n}" by simp
    show "k \<in> {..<n}" using k(1) by simp
    show "0 < (of_nat k - xmean n)\<^sup>2" using k(2) by simp
    show "0 \<le> (of_nat i - xmean n)\<^sup>2" if "i \<in> {..<n}" for i by simp
  qed
  then show ?thesis
    using assms by (simp add: ssxm_def sum_list_upt_conv zero_less_divide_iff)
qed

lemma ssxym_double_sum:
  assumes "0 < length ys"
  shows "(\<Sum>i<length ys. \<Sum>j<length ys.
            (of_nat i - of_nat j) * (of_int (ys ! i) - of_int (ys ! j) :: rat))
       = 2 * of_nat (length ys) * (of_nat (length ys) * ssxym ys)"
proof -
  have "of_nat (length ys) * ssxym ys
      = (\<Sum>i<length ys. (of_nat i - xmean (length ys)) * (of_int (ys ! i) - np_mean ys))"
    using assms by (simp add: ssxym_def sum_list_upt_conv)
  also have "\<dots> = (\<Sum>i<length ys. (of_nat i - xmean (length ys)) * of_int (ys ! i))"
    using assms by (rule centred_sum)
  finally show ?thesis
    using double_sum [OF assms, of "\<lambda>i. of_int (ys ! i)"] by simp
qed

lemma slope_sign_ssxym:
  assumes "2 \<le> length ys"
  shows "(0 < linregress_slope ys \<longleftrightarrow>
            0 < (\<Sum>i<length ys. \<Sum>j<length ys.
                  (of_nat i - of_nat j) * (of_int (ys ! i) - of_int (ys ! j) :: rat)))"
    and "(linregress_slope ys < 0 \<longleftrightarrow>
            (\<Sum>i<length ys. \<Sum>j<length ys.
                  (of_nat i - of_nat j) * (of_int (ys ! i) - of_int (ys ! j) :: rat)) < 0)"
proof -
  have n: "0 < length ys" using assms by linarith
  have p: "0 < ssxm (length ys)" using assms by (rule ssxm_pos)
  have n': "(0::rat) < of_nat (length ys)" using n by simp
  show "(0 < linregress_slope ys \<longleftrightarrow>
            0 < (\<Sum>i<length ys. \<Sum>j<length ys.
                  (of_nat i - of_nat j) * (of_int (ys ! i) - of_int (ys ! j) :: rat)))"
    unfolding ssxym_double_sum [OF n] linregress_slope_def
    using p n' by (simp add: zero_less_divide_iff zero_less_mult_iff)
  show "(linregress_slope ys < 0 \<longleftrightarrow>
            (\<Sum>i<length ys. \<Sum>j<length ys.
                  (of_nat i - of_nat j) * (of_int (ys ! i) - of_int (ys ! j) :: rat)) < 0)"
    unfolding ssxym_double_sum [OF n] linregress_slope_def
    using p n' by (simp add: divide_less_0_iff mult_less_0_iff)
qed

lemma slope_pos_increasing:
  assumes "2 \<le> length ys" and "sorted_wrt (<) ys"
  shows "0 < linregress_slope ys"
proof -
  have "0 < (\<Sum>i<length ys. \<Sum>j<length ys.
                  (of_nat i - of_nat j) * (of_int (ys ! i) - of_int (ys ! j) :: rat))"
  proof (rule double_sum_pos [OF assms(1)])
    fix i j assume "i < j" "j < length ys"
    then have "ys ! i < ys ! j" using assms(2) by (simp add: sorted_wrt_iff_nth_less)
    then show "(of_int (ys ! i) :: rat) < of_int (ys ! j)" by simp
  qed
  then show ?thesis using slope_sign_ssxym(1) [OF assms(1)] by simp
qed

lemma slope_neg_decreasing:
  assumes "2 \<le> length ys" and "sorted_wrt (>) ys"
  shows "linregress_slope ys < 0"
proof -
  have "0 < (\<Sum>i<length ys. \<Sum>j<length ys.
                  (of_nat i - of_nat j) * (- of_int (ys ! i) - - of_int (ys ! j) :: rat))"
  proof (rule double_sum_pos [OF assms(1)])
    fix i j assume "i < j" "j < length ys"
    then have "ys ! j < ys ! i" using assms(2) by (simp add: sorted_wrt_iff_nth_less)
    then show "(- of_int (ys ! i) :: rat) < - of_int (ys ! j)" by simp
  qed
  also have "(\<Sum>i<length ys. \<Sum>j<length ys.
                  (of_nat i - of_nat j) * (- of_int (ys ! i) - - of_int (ys ! j) :: rat))
      = - (\<Sum>i<length ys. \<Sum>j<length ys.
                  (of_nat i - of_nat j) * (of_int (ys ! i) - of_int (ys ! j) :: rat))"
    unfolding sum_negf [symmetric] by (intro sum.cong refl) (simp add: algebra_simps)
  finally show ?thesis using slope_sign_ssxym(2) [OF assms(1)] by simp
qed

section \<open>Properties of PerformanceAnalyzer\<close>




lemma report_entry:
  assumes "generate_trend_report np_std p_value db crate days start_date end_date = Trend_report rep"
    and "(b, s) \<in> set (benchmarks rep)"
  shows "s = benchmark_stats np_std p_value
               (group_durations (trend_rows db crate start_date end_date) b)"
proof -
  from assms(1) have "benchmarks rep =
      map (\<lambda>benchmark. (benchmark, benchmark_stats np_std p_value
              (group_durations (trend_rows db crate start_date end_date) benchmark)))
        (unique (map br_benchmark_name (trend_rows db crate start_date end_date)))"
    by (auto simp: generate_trend_report_def Let_def split: if_splits)
  with assms(2) show ?thesis by auto
qed

lemma trend_db_report:
  "trend_summary (generate_trend_report (\<lambda>ys. 0) (\<lambda>ys. 1 / 100) trend_db ''m'' 30
       ''2024-02-15'' ''2024-03-15'')
     = [(''A'', 3, Some (15, False, True)), (''B'', 2, Some (- 20, True, False))]"
  by code_simp

text \<open>
  Claim C7. For every benchmark group of a trend report with at least two samples, the
  flag \<^verbatim>\<open>is_improving\<close> holds exactly when the fitted least-squares slope is
  negative, and \<^verbatim>\<open>is_degrading\<close> exactly when the slope is positive and the
  p-value is below 0.05. A strictly increasing sequence of durations has a positive slope;
  a strictly decreasing one has a negative slope and is flagged as improving.
\<close>

theorem trend_classification:
  assumes "generate_trend_report np_std p_value db crate days start_date end_date = Trend_report rep"
    and "(b, s) \<in> set (benchmarks rep)"
    and "2 \<le> count s"
  shows "\<exists>t. trend s = Some t
      \<and> trend_slope t = linregress_slope (group_durations (trend_rows db crate start_date end_date) b)
      \<and> trend_p_value t = p_value (group_durations (trend_rows db crate start_date end_date) b)
      \<and> (is_improving t \<longleftrightarrow> trend_slope t < 0)
      \<and> (is_degrading t \<longleftrightarrow> trend_slope t > 0 \<and> trend_p_value t < 5 / 100)
      \<and> (sorted_wrt (<) (group_durations (trend_rows db crate start_date end_date) b)
           \<longrightarrow> trend_slope t > 0)
      \<and> (sorted_wrt (>) (group_durations (trend_rows db crate start_date end_date) b)
           \<longrightarrow> trend_slope t < 0 \<and> is_improving t)"
proof -
  let ?ys = "group_durations (trend_rows db crate start_date end_date) b"
  have s: "s = benchmark_stats np_std p_value ?ys"
    using assms(1,2) by (rule report_entry)
  with assms(3) have len: "2 \<le> length ?ys"
    by (simp add: benchmark_stats_def)
  let ?t = "\<lparr>trend_slope = linregress_slope ?ys,
             trend_r_squared = linregress_r_squared ?ys,
             trend_p_value = p_value ?ys,
             is_improving = (linregress_slope ?ys < 0),
             is_degrading = (linregress_slope ?ys > 0 \<and> p_value ?ys < 5 / 100)\<rparr>"
  have t: "trend s = Some ?t"
    using len by (simp add: s benchmark_stats_def Let_def)
  have inc: "sorted_wrt (<) ?ys \<longrightarrow> trend_slope ?t > 0"
    using slope_pos_increasing [OF len] by simp
  have dec: "sorted_wrt (>) ?ys \<longrightarrow> trend_slope ?t < 0 \<and> is_improving ?t"
    using slope_neg_decreasing [OF len] by simp
  show ?thesis
    using t inc dec by (intro exI [of _ ?t]) simp
qed

theorem trend_classification_witness:
  "\<exists>rep sA sB.
     generate_trend_report (\<lambda>ys. 0) (\<lambda>ys. 1 / 100) trend_db ''m'' 30 ''2024-02-15'' ''2024-03-15''
       = Trend_report rep
     \<and> (''A'', sA) \<in> set (benchmarks rep) \<and> 2 \<le> count sA
     \<and> sorted_wrt (<) (group_durations (trend_rows trend_db ''m'' ''2024-02-15'' ''2024-03-15'') ''A'')
     \<and> (\<exists>t. trend sA = Some t \<and> trend_slope t = 15 \<and> \<not> is_improving t \<and> is_degrading t)
     \<and> (''B'', sB) \<in> set (benchmarks rep) \<and> 2 \<le> count sB
     \<and> sorted_wrt (>) (group_durations (trend_rows trend_db ''m'' ''2024-02-15'' ''2024-03-15'') ''B'')
     \<and> (\<exists>t. trend sB = Some t \<and> trend_slope t < 0 \<and> is_improving t \<and> \<not> is_degrading t)"
proof -
  let ?res = "generate_trend_report (\<lambda>ys. 0) (\<lambda>ys. 1 / 100) trend_db ''m'' 30
                ''2024-02-15'' ''2024-03-15''"
  obtain rep where e: "?res = Trend_report rep"
    using trend_db_report by (cases ?res) (simp_all add: trend_summary_def)
  from trend_db_report e obtain sA sB where
    b: "benchmarks rep = [(''A'', sA), (''B'', sB)]"
    and cA: "count sA = 3" and cB: "count sB = 2"
    and tA: "map_option (\<lambda>t. (trend_slope t, is_improving t, is_degrading t)) (trend sA)
               = Some (15, False, True)"
    and tB: "map_option (\<lambda>t. (trend_slope t, is_improving t, is_degrading t)) (trend sB)
               = Some (- 20, True, False)"
    by (auto simp: trend_summary_def map_eq_Cons_conv)
  have inA: "(''A'', sA) \<in> set (benchmarks rep)" and inB: "(''B'', sB) \<in> set (benchmarks rep)"
    by (simp_all add: b)
  have lA: "2 \<le> count sA" and lB: "2 \<le> count sB"
    by (simp_all add: cA cB)
  have incA: "sorted_wrt (<)
      (group_durations (trend_rows trend_db ''m'' ''2024-02-15'' ''2024-03-15'') ''A'')"
    by code_simp
  have decB: "sorted_wrt (>)
      (group_durations (trend_rows trend_db ''m'' ''2024-02-15'' ''2024-03-15'') ''B'')"
    by code_simp
  from trend_classification [OF e inA lA] incA tA
  have rA: "\<exists>t. trend sA = Some t \<and> trend_slope t = 15 \<and> \<not> is_improving t \<and> is_degrading t"
    by auto
  from trend_classification [OF e inB lB] decB
  have rB: "\<exists>t. trend sB = Some t \<and> trend_slope t < 0 \<and> is_improving t \<and> \<not> is_degrading t"
    by auto
  show ?thesis
    using e inA lA incA rA inB lB decB rB by blast
qed











end
